theory Spec2Isabelle
  imports Complex_Main
begin

section \<open>Countdown engine (timer\_manager.py, class TimerManager)\<close>

text \<open>
  The four states of the engine, with the names of the class constants
  (\<^verbatim>\<open>STATE_STOPPED = 0\<close>, \<^verbatim>\<open>STATE_RUNNING = 1\<close>, \<^verbatim>\<open>STATE_PAUSED = 2\<close>,
  \<^verbatim>\<open>STATE_BREAK_ACTIVE = 3\<close>).
\<close>

datatype timer_state = STATE_STOPPED | STATE_RUNNING | STATE_PAUSED | STATE_BREAK_ACTIVE

text \<open>
  The GObject signals of \<^verbatim>\<open>__gsignals__\<close>. Only \<^verbatim>\<open>timer_tick\<close> carries a
  payload (the remaining seconds). Every operation returns the signals it emits, in order.
\<close>

datatype signal =
  timer_started | timer_paused | timer_resumed | timer_stopped | timer_tick int | break_started

text \<open>
  The instance attributes set by \<^verbatim>\<open>__init__\<close>. Python integers are unbounded, hence
  \<open>int\<close>. \<^verbatim>\<open>_timer_source_id\<close> is either \<^verbatim>\<open>None\<close> or the identifier returned by
  \<^verbatim>\<open>GLib.timeout_add_seconds\<close>, which is never zero; the code only ever tests its
  truthiness, so the field records whether a tick source is held.
\<close>

record TimerManager =
  state :: timer_state
  timer_source_id :: bool
  remaining_seconds :: int
  configured_interval_seconds :: int

definition TimerManager_init :: TimerManager where
  "TimerManager_init =
     \<lparr>state = STATE_STOPPED, timer_source_id = False,
      remaining_seconds = 0, configured_interval_seconds = 0\<rparr>"

text \<open>
  Python 3's \<^verbatim>\<open>round(x)\<close> with one argument: the nearest integer, a tie going to the
  even neighbour. The minutes arguments are floats in the source; here they are exact
  rationals, so the product \<^verbatim>\<open>minutes * 60\<close> is the exact one.
\<close>

definition py_round :: "rat \<Rightarrow> int" where
  "py_round x =
     (let f = \<lfloor>x\<rfloor>; d = x - of_int f
      in if d < 1 / 2 then f
         else if 1 / 2 < d then f + 1
         else if even f then f else f + 1)"

definition stop_internal_timer :: "TimerManager \<Rightarrow> TimerManager" where
  "stop_internal_timer t =
     (if timer_source_id t then t\<lparr>timer_source_id := False\<rparr> else t)"

definition set_interval :: "TimerManager \<Rightarrow> rat \<Rightarrow> TimerManager" where
  "set_interval t minutes =
     (let interval_seconds = py_round (minutes * 60);
          interval_seconds = (if interval_seconds < 1 then 1 else interval_seconds);
          t = t\<lparr>configured_interval_seconds := interval_seconds\<rparr>
      in if state t = STATE_STOPPED
         then t\<lparr>remaining_seconds := configured_interval_seconds t\<rparr>
         else t)"

definition start :: "TimerManager \<Rightarrow> TimerManager \<times> signal list" where
  "start t0 =
     (let t = stop_internal_timer t0
      in if configured_interval_seconds t \<le> 0 then (t, [])
         else
           (let t = t\<lparr>state := STATE_RUNNING\<rparr>;
                t = t\<lparr>remaining_seconds := configured_interval_seconds t\<rparr>;
                t = t\<lparr>timer_source_id := True\<rparr>
            in (t, [timer_started, timer_tick (remaining_seconds t)])))"

definition pause :: "TimerManager \<Rightarrow> TimerManager \<times> signal list" where
  "pause t =
     (if state t = STATE_RUNNING
      then (stop_internal_timer (t\<lparr>state := STATE_PAUSED\<rparr>), [timer_paused])
      else (t, []))"

definition enter_break_state :: "TimerManager \<Rightarrow> TimerManager \<times> signal list" where
  "enter_break_state t =
     (t\<lparr>state := STATE_BREAK_ACTIVE, remaining_seconds := 0, timer_source_id := False\<rparr>,
      [break_started])"

definition resume :: "TimerManager \<Rightarrow> TimerManager \<times> signal list" where
  "resume t0 =
     (if state t0 = STATE_PAUSED
      then
        (let t = t0\<lparr>state := STATE_RUNNING\<rparr>
         in if 0 < remaining_seconds t
            then (t\<lparr>timer_source_id := True\<rparr>,
                  [timer_resumed, timer_tick (remaining_seconds t)])
            else enter_break_state t)
      else (t0, []))"

definition stop :: "TimerManager \<Rightarrow> TimerManager \<times> signal list" where
  "stop t0 =
     (let previous_state = state t0;
          t = stop_internal_timer t0;
          t = t\<lparr>state := STATE_STOPPED\<rparr>;
          t = t\<lparr>remaining_seconds := configured_interval_seconds t\<rparr>
      in (t, if previous_state \<noteq> STATE_STOPPED then [timer_stopped] else []))"

definition postpone :: "TimerManager \<Rightarrow> rat \<Rightarrow> TimerManager \<times> signal list" where
  "postpone t0 minutes =
     (let t = stop_internal_timer t0;
          postpone_seconds = py_round (minutes * 60);
          postpone_seconds = (if postpone_seconds < 1 then 1 else postpone_seconds);
          t = t\<lparr>state := STATE_RUNNING\<rparr>;
          t = t\<lparr>remaining_seconds := postpone_seconds\<rparr>;
          t = t\<lparr>timer_source_id := True\<rparr>
      in (t, [timer_started, timer_tick (remaining_seconds t)]))"

text \<open>
  The callback \<^verbatim>\<open>_tick\<close>. Its boolean result tells GLib whether the source stays
  (\<^verbatim>\<open>True\<close>) or is removed (\<^verbatim>\<open>False\<close>); on every path that returns \<^verbatim>\<open>False\<close> the
  code has already cleared \<^verbatim>\<open>_timer_source_id\<close>.
\<close>

definition tick :: "TimerManager \<Rightarrow> bool \<times> TimerManager \<times> signal list" where
  "tick t0 =
     (if state t0 \<noteq> STATE_RUNNING
      then (False, t0\<lparr>timer_source_id := False\<rparr>, [])
      else
        (let t = t0\<lparr>remaining_seconds := remaining_seconds t0 - 1\<rparr>
         in if 0 < remaining_seconds t
            then (True, t, [timer_tick (remaining_seconds t)])
            else (False, enter_break_state t)))"

subsection \<open>Runs of the engine\<close>

text \<open>
  One request to the engine: a call of a public method, or one firing of the one-second
  callback.
\<close>

datatype operation =
  SetInterval rat | Start | Pause | Resume | Stop | Postpone rat | Tick

fun step :: "TimerManager \<Rightarrow> operation \<Rightarrow> TimerManager \<times> signal list" where
  "step t (SetInterval minutes) = (set_interval t minutes, [])"
| "step t Start = start t"
| "step t Pause = pause t"
| "step t Resume = resume t"
| "step t Stop = stop t"
| "step t (Postpone minutes) = postpone t minutes"
| "step t Tick = snd (tick t)"

text \<open>A sequence of requests, with every signal emitted on the way, in order.\<close>

fun run :: "TimerManager \<Rightarrow> operation list \<Rightarrow> TimerManager \<times> signal list" where
  "run t [] = (t, [])"
| "run t (x # xs) =
     (case step t x of (t', out) \<Rightarrow>
        (case run t' xs of (t'', out') \<Rightarrow> (t'', out @ out')))"

definition exec :: "TimerManager \<Rightarrow> operation list \<Rightarrow> TimerManager" where
  "exec t xs = fst (run t xs)"

text \<open>
  The invariant of the engine's attributes, as a check on one state: stopped with the
  full interval left, running or paused with at least one second left, in a break with
  none; and an interval that is never negative.
\<close>

definition timer_inv :: "TimerManager \<Rightarrow> bool" where
  "timer_inv t =
     ((case state t of
         STATE_STOPPED \<Rightarrow> remaining_seconds t = configured_interval_seconds t
       | STATE_RUNNING \<Rightarrow> 1 \<le> remaining_seconds t
       | STATE_PAUSED \<Rightarrow> 1 \<le> remaining_seconds t
       | STATE_BREAK_ACTIVE \<Rightarrow> remaining_seconds t = 0)
      \<and> 0 \<le> configured_interval_seconds t)"

section \<open>Idle detector (idle\_monitor.py, class IdleMonitor)\<close>

datatype idle_signal = user_idle | user_active

text \<open>
  The attributes of the monitor. \<^verbatim>\<open>_display\<close>, \<^verbatim>\<open>_root_window\<close> and
  \<^verbatim>\<open>_saver_info\<close> are handles of the X libraries that the code only tests for
  truthiness, so each field says whether the handle is held. \<^verbatim>\<open>_timer_source_id\<close>
  is \<open>monitor_source_id\<close> here (the engine's record has a field of that name already).
\<close>

record IdleMonitor =
  idle_threshold_ms :: int
  is_idle :: bool
  monitor_source_id :: bool
  display :: bool
  root_window :: bool
  saver_info :: bool
  initialized_successfully :: bool

text \<open>
  What the three X calls of the constructor return: a handle (\<open>True\<close>) or
  \<^verbatim>\<open>NULL\<close>/0 (\<open>False\<close>).
\<close>

record x_server =
  XOpenDisplay :: bool
  XDefaultRootWindow :: bool
  XScreenSaverAllocInfo :: bool

text \<open>
  \<^verbatim>\<open>__init__\<close>: each failed call raises \<^verbatim>\<open>RuntimeError\<close>, and the handler frees what
  was acquired and leaves the monitor uninitialised. A call after a failed one is never
  made, so its handle stays as initialised (\<^verbatim>\<open>None\<close>).
\<close>

definition IdleMonitor_init :: "int \<Rightarrow> x_server \<Rightarrow> IdleMonitor" where
  "IdleMonitor_init idle_threshold_seconds x =
     (let idle_threshold_seconds =
            (if idle_threshold_seconds < 1 then 1 else idle_threshold_seconds);
          m = \<lparr>idle_threshold_ms = idle_threshold_seconds * 1000, is_idle = False,
               monitor_source_id = False, display = False, root_window = False,
               saver_info = False, initialized_successfully = False\<rparr>
      in if \<not> XOpenDisplay x then m
         else if \<not> XDefaultRootWindow x then m
         else if \<not> XScreenSaverAllocInfo x then m\<lparr>root_window := True\<rparr>
         else m\<lparr>display := True, root_window := True, saver_info := True,
                 initialized_successfully := True\<rparr>)"

text \<open>
  What \<^verbatim>\<open>start\<close> asks of GLib: one check at the next idle moment of the main loop
  and a periodic check.
\<close>

datatype glib_request = idle_add | timeout_add_seconds int

definition monitor_start :: "IdleMonitor \<Rightarrow> int \<Rightarrow> IdleMonitor \<times> glib_request list" where
  "monitor_start m poll_interval_seconds =
     (if \<not> initialized_successfully m then (m, [])
      else if monitor_source_id m then (m, [])
      else
        (let poll_interval_seconds =
               (if poll_interval_seconds < 1 then 1 else poll_interval_seconds)
         in (m\<lparr>monitor_source_id := True\<rparr>,
             [idle_add, timeout_add_seconds poll_interval_seconds])))"

definition monitor_stop :: "IdleMonitor \<Rightarrow> IdleMonitor" where
  "monitor_stop m0 =
     (let m = (if monitor_source_id m0 then m0\<lparr>monitor_source_id := False\<rparr> else m0)
      in if initialized_successfully m
         then
           (let m = (if saver_info m then m\<lparr>saver_info := False\<rparr> else m);
                m = (if display m then m\<lparr>display := False\<rparr> else m)
            in m\<lparr>initialized_successfully := False\<rparr>)
         else m)"

text \<open>
  The outcome of the platform query inside \<^verbatim>\<open>_check_idle\<close>: status 0, an exception
  (caught by the \<^verbatim>\<open>except\<close> clause), or the idle time in milliseconds.
\<close>

datatype query_result = QueryStatus0 | QueryRaised | QueryIdle int

definition check_idle :: "IdleMonitor \<Rightarrow> query_result \<Rightarrow> bool \<times> IdleMonitor \<times> idle_signal list" where
  "check_idle m q =
     (if \<not> initialized_successfully m \<or> \<not> display m \<or> \<not> saver_info m
      then (False, m, [])
      else
        (case q of
           QueryStatus0 \<Rightarrow> (True, m, [])
         | QueryRaised \<Rightarrow> (monitor_source_id m, m, [])
         | QueryIdle current_idle_ms \<Rightarrow>
             (let currently_considered_idle = (idle_threshold_ms m \<le> current_idle_ms)
              in if currently_considered_idle \<and> \<not> is_idle m
                 then (monitor_source_id m, m\<lparr>is_idle := True\<rparr>, [user_idle])
                 else if \<not> currently_considered_idle \<and> is_idle m
                 then (monitor_source_id m, m\<lparr>is_idle := False\<rparr>, [user_active])
                 else (monitor_source_id m, m, []))))"

text \<open>
  A sequence of polls. For every poll the log keeps the flag before, the query's
  outcome, the flag after, the signals emitted and the callback's result.
\<close>

fun poll_log ::
  "IdleMonitor \<Rightarrow> query_result list \<Rightarrow> (bool \<times> query_result \<times> bool \<times> idle_signal list \<times> bool) list"
where
  "poll_log m [] = []"
| "poll_log m (q # qs) =
     (case check_idle m q of
        (keep, m', out) \<Rightarrow> (is_idle m, q, is_idle m', out, keep) # poll_log m' qs)"

text \<open>Requests to a monitor: its two public methods and one poll.\<close>

datatype monitor_op = MonitorStart int | MonitorStop | MonitorPoll query_result

fun monitor_step ::
  "IdleMonitor \<Rightarrow> monitor_op \<Rightarrow> IdleMonitor \<times> glib_request list \<times> idle_signal list"
where
  "monitor_step m (MonitorStart poll_interval_seconds) =
     (case monitor_start m poll_interval_seconds of (m', reqs) \<Rightarrow> (m', reqs, []))"
| "monitor_step m MonitorStop = (monitor_stop m, [], [])"
| "monitor_step m (MonitorPoll q) =
     (case check_idle m q of (keep, m', out) \<Rightarrow> (m', [], out))"

fun monitor_run ::
  "IdleMonitor \<Rightarrow> monitor_op list \<Rightarrow> IdleMonitor \<times> glib_request list \<times> idle_signal list"
where
  "monitor_run m [] = (m, [], [])"
| "monitor_run m (x # xs) =
     (case monitor_step m x of (m', reqs, out) \<Rightarrow>
        (case monitor_run m' xs of (m'', reqs', out') \<Rightarrow> (m'', reqs @ reqs', out @ out')))"

section \<open>Pause arbitration (mindful\_break\_app.py, class MindfulBreakApp)\<close>

text \<open>
  The states the tray icon can show (\<^verbatim>\<open>TrayIcon.STATE_*\<close>); \<^verbatim>\<open>update_status\<close>
  takes one of them and a number of seconds, 0 when omitted.
\<close>

datatype tray_state =
  TRAY_RUNNING | TRAY_PAUSED | TRAY_IDLE | TRAY_BREAK | TRAY_STOPPED | TRAY_MANUAL_PAUSE

text \<open>
  The part of the application the pause logic reads and writes: the engine, the two
  pause causes (\<^verbatim>\<open>_paused_due_to_idle\<close>, and the manual pause with its GLib source
  and its seconds left), and the last status given to the tray icon. The source
  identifier is again only tested for truthiness. \<open>engine_calls\<close> is not an attribute
  of the class: it lists, in order, the methods of the engine the application has called.
  The components (\<^verbatim>\<open>timer_manager\<close>, \<^verbatim>\<open>tray_icon\<close>) exist, as they do once
  \<^verbatim>\<open>do_startup\<close> has succeeded, so the handlers' tests for them are true.
\<close>

record MindfulBreakApp =
  timer_manager :: TimerManager
  paused_due_to_idle :: bool
  manual_pause_timer_id :: bool
  manual_pause_remaining_seconds :: int
  tray_status :: "tray_state \<times> int"
  engine_calls :: "operation list"

definition on_timer_tick :: "MindfulBreakApp \<Rightarrow> int \<Rightarrow> MindfulBreakApp" where
  "on_timer_tick a remaining =
     (if state (timer_manager a) = STATE_RUNNING
      then a\<lparr>tray_status := (TRAY_RUNNING, remaining)\<rparr>
      else a)"

text \<open>
  \<^verbatim>\<open>on_break_started\<close> also plays the sound and shows the overlay window; neither
  touches the attributes above.
\<close>

definition on_break_started :: "MindfulBreakApp \<Rightarrow> MindfulBreakApp" where
  "on_break_started a = a\<lparr>tray_status := (TRAY_BREAK, 0)\<rparr>"

definition on_timer_paused :: "MindfulBreakApp \<Rightarrow> MindfulBreakApp" where
  "on_timer_paused a =
     (if manual_pause_timer_id a then a
      else if paused_due_to_idle a then a\<lparr>tray_status := (TRAY_IDLE, 0)\<rparr>
      else a\<lparr>tray_status := (TRAY_PAUSED, 0)\<rparr>)"

definition cancel_manual_pause :: "MindfulBreakApp \<Rightarrow> MindfulBreakApp" where
  "cancel_manual_pause a0 =
     (if manual_pause_timer_id a0
      then
        (let a = a0\<lparr>manual_pause_timer_id := False\<rparr>;
             a = a\<lparr>manual_pause_remaining_seconds := 0\<rparr>
         in if state (timer_manager a) = STATE_PAUSED then on_timer_paused a else a)
      else a0)"

definition on_timer_resumed :: "MindfulBreakApp \<Rightarrow> MindfulBreakApp" where
  "on_timer_resumed a0 =
     (let a = cancel_manual_pause a0;
          a = a\<lparr>paused_due_to_idle := False\<rparr>
      in a\<lparr>tray_status := (TRAY_RUNNING, remaining_seconds (timer_manager a))\<rparr>)"

definition on_timer_stopped :: "MindfulBreakApp \<Rightarrow> MindfulBreakApp" where
  "on_timer_stopped a0 =
     (let a = cancel_manual_pause a0;
          a = a\<lparr>paused_due_to_idle := False\<rparr>
      in a\<lparr>tray_status := (TRAY_STOPPED, 0)\<rparr>)"

definition on_timer_started :: "MindfulBreakApp \<Rightarrow> MindfulBreakApp" where
  "on_timer_started a0 =
     (let a = cancel_manual_pause a0;
          a = a\<lparr>paused_due_to_idle := False\<rparr>
      in a\<lparr>tray_status := (TRAY_RUNNING, remaining_seconds (timer_manager a))\<rparr>)"

text \<open>The connections made by \<^verbatim>\<open>_connect_signals\<close>.\<close>

fun handle_signal :: "MindfulBreakApp \<Rightarrow> signal \<Rightarrow> MindfulBreakApp" where
  "handle_signal a (timer_tick remaining) = on_timer_tick a remaining"
| "handle_signal a break_started = on_break_started a"
| "handle_signal a timer_paused = on_timer_paused a"
| "handle_signal a timer_resumed = on_timer_resumed a"
| "handle_signal a timer_stopped = on_timer_stopped a"
| "handle_signal a timer_started = on_timer_started a"

text \<open>
  A call of a method of the engine by the application. The handlers run inside
  \<^verbatim>\<open>emit\<close>; every method of the engine has finished writing its attributes before its
  first \<^verbatim>\<open>emit\<close>, and no handler calls the engine back, so the handlers see the state
  the method leaves.
\<close>

definition emit_all :: "MindfulBreakApp \<Rightarrow> signal list \<Rightarrow> MindfulBreakApp" where
  "emit_all a out = foldl handle_signal a out"

definition call_engine :: "MindfulBreakApp \<Rightarrow> operation \<Rightarrow> MindfulBreakApp" where
  "call_engine a x =
     (case step (timer_manager a) x of
        (t', out) \<Rightarrow>
          emit_all (a\<lparr>timer_manager := t', engine_calls := engine_calls a @ [x]\<rparr>) out)"

definition on_user_idle :: "MindfulBreakApp \<Rightarrow> MindfulBreakApp" where
  "on_user_idle a =
     (if manual_pause_timer_id a then a
      else if state (timer_manager a) = STATE_RUNNING
      then call_engine (a\<lparr>paused_due_to_idle := True\<rparr>) Pause
      else a)"

definition on_user_active :: "MindfulBreakApp \<Rightarrow> MindfulBreakApp" where
  "on_user_active a =
     (if manual_pause_timer_id a then a\<lparr>paused_due_to_idle := False\<rparr>
      else if state (timer_manager a) = STATE_PAUSED \<and> paused_due_to_idle a
      then call_engine a Resume
      else if paused_due_to_idle a then a\<lparr>paused_due_to_idle := False\<rparr>
      else a)"

text \<open>\<open>interval\<close> is what \<^verbatim>\<open>settings_manager.get_break_interval()\<close> returns.\<close>

definition on_start_timer_requested :: "MindfulBreakApp \<Rightarrow> rat \<Rightarrow> MindfulBreakApp" where
  "on_start_timer_requested a interval =
     call_engine (call_engine a (SetInterval interval)) Start"

definition on_resume_timer_requested :: "MindfulBreakApp \<Rightarrow> MindfulBreakApp" where
  "on_resume_timer_requested a0 =
     (let a = cancel_manual_pause a0;
          a = a\<lparr>paused_due_to_idle := False\<rparr>
      in if state (timer_manager a) = STATE_PAUSED then call_engine a Resume else a)"

text \<open>
  The answer of the duration dialog (pause\_duration\_dialog.py): OK with the whole
  number of minutes of its spin button, or anything else.
\<close>

datatype response = RESPONSE_OK int | RESPONSE_CANCEL

definition get_duration_seconds :: "int \<Rightarrow> int" where
  "get_duration_seconds minutes = max 1 (minutes * 60)"

definition on_set_time_dialog_response :: "MindfulBreakApp \<Rightarrow> response \<Rightarrow> MindfulBreakApp" where
  "on_set_time_dialog_response a r =
     (case r of
        RESPONSE_OK minutes \<Rightarrow>
          (let duration_seconds = get_duration_seconds minutes
           in if duration_seconds \<le> 0 then a
              else call_engine a (Postpone (of_int duration_seconds / 60)))
      | RESPONSE_CANCEL \<Rightarrow> a)"

definition on_overlay_postponed :: "MindfulBreakApp \<Rightarrow> int \<Rightarrow> MindfulBreakApp" where
  "on_overlay_postponed a minutes = call_engine a (Postpone (of_int minutes))"

definition on_pause_dialog_response :: "MindfulBreakApp \<Rightarrow> response \<Rightarrow> MindfulBreakApp" where
  "on_pause_dialog_response a0 r =
     (case r of
        RESPONSE_OK minutes \<Rightarrow>
          (let duration_seconds = get_duration_seconds minutes
           in if duration_seconds \<le> 0 then a0
              else
                (let a = a0\<lparr>paused_due_to_idle := False\<rparr>;
                     a = (if state (timer_manager a) = STATE_RUNNING
                          then call_engine a Pause else a);
                     a = a\<lparr>manual_pause_remaining_seconds := duration_seconds\<rparr>;
                     a = a\<lparr>manual_pause_timer_id := True\<rparr>
                 in a\<lparr>tray_status :=
                        (TRAY_MANUAL_PAUSE, manual_pause_remaining_seconds a)\<rparr>))
      | RESPONSE_CANCEL \<Rightarrow> a0)"

text \<open>
  The callback \<^verbatim>\<open>_manual_pause_tick\<close>; as for the engine's tick, the boolean tells
  GLib whether the source stays.
\<close>

definition manual_pause_tick :: "MindfulBreakApp \<Rightarrow> bool \<times> MindfulBreakApp" where
  "manual_pause_tick a0 =
     (if manual_pause_remaining_seconds a0 \<le> 0
      then
        (let a = cancel_manual_pause a0
         in (False, if state (timer_manager a) = STATE_PAUSED
                    then call_engine a Resume else a))
      else
        (let a = a0\<lparr>manual_pause_remaining_seconds :=
                       manual_pause_remaining_seconds a0 - 1\<rparr>;
             a = a\<lparr>tray_status :=
                      (TRAY_MANUAL_PAUSE, manual_pause_remaining_seconds a)\<rparr>
         in if manual_pause_remaining_seconds a \<le> 0
            then
              (let a = a\<lparr>manual_pause_timer_id := False\<rparr>
               in (False, if state (timer_manager a) = STATE_PAUSED
                          then call_engine a Resume else a))
            else (True, a)))"

text \<open>
  What can happen while a manual pause lasts without the user asking for anything: the
  idle detector's two signals and the two one-second callbacks. GLib calls a callback
  only while its source exists, and both identifiers are cleared wherever their source
  goes away.
\<close>

datatype app_event = UserIdle | UserActive | ManualPauseTick | EngineTick

fun app_step :: "MindfulBreakApp \<Rightarrow> app_event \<Rightarrow> MindfulBreakApp" where
  "app_step a UserIdle = on_user_idle a"
| "app_step a UserActive = on_user_active a"
| "app_step a ManualPauseTick =
     (if manual_pause_timer_id a then snd (manual_pause_tick a) else a)"
| "app_step a EngineTick =
     (if timer_source_id (timer_manager a)
      then (case tick (timer_manager a) of
              (keep, t', out) \<Rightarrow> emit_all (a\<lparr>timer_manager := t'\<rparr>) out)
      else a)"

definition app_run :: "MindfulBreakApp \<Rightarrow> app_event list \<Rightarrow> MindfulBreakApp" where
  "app_run a es = foldl app_step a es"

text \<open>
  \<^verbatim>\<open>on_pause_for_requested\<close> opens the duration dialog unless a manual pause is
  already active; the result says whether the dialog is opened.
\<close>

definition on_pause_for_requested :: "MindfulBreakApp \<Rightarrow> bool" where
  "on_pause_for_requested a = (if manual_pause_timer_id a then False else True)"

section \<open>Predicates of the proofs\<close>

text \<open>A monitor that polls: initialised, with its handles and its periodic source.\<close>

definition operational :: "IdleMonitor \<Rightarrow> bool" where
  "operational m =
     (initialized_successfully m \<and> display m \<and> saver_info m \<and> monitor_source_id m)"

text \<open>
  What one entry of a poll log has to satisfy, for a threshold \<open>thr\<close>; \<open>opf\<close> says
  whether the monitor was polling when the log began.
\<close>

definition poll_entry_ok ::
  "int \<Rightarrow> bool \<Rightarrow> bool \<times> query_result \<times> bool \<times> idle_signal list \<times> bool \<Rightarrow> bool"
where
  "poll_entry_ok thr opf e =
     (case e of (before, q, after, out, keep) \<Rightarrow>
        out = (if \<not> before \<and> after then [user_idle]
               else if before \<and> \<not> after then [user_active] else [])
      \<and> (after \<noteq> before \<longrightarrow> (\<exists>ms. q = QueryIdle ms \<and> after = (thr \<le> ms)))
      \<and> (q = QueryStatus0 \<or> q = QueryRaised \<longrightarrow> after = before \<and> out = [])
      \<and> (opf \<longrightarrow> keep))"

text \<open>A manual pause in force: its source exists and the engine is paused, without a tick source.\<close>

definition manual_pause_holds :: "MindfulBreakApp \<Rightarrow> bool" where
  "manual_pause_holds a =
     (manual_pause_timer_id a \<and> state (timer_manager a) = STATE_PAUSED
      \<and> \<not> timer_source_id (timer_manager a))"

section \<open>Example states\<close>

text \<open>
  The monitor of the module's own test: threshold 5 seconds, every X call succeeding,
  started with a poll interval of 2 seconds.
\<close>

definition test_monitor :: IdleMonitor where
  "test_monitor =
     fst (monitor_start
            (IdleMonitor_init 5
               \<lparr>XOpenDisplay = True, XDefaultRootWindow = True, XScreenSaverAllocInfo = True\<rparr>)
            2)"

text \<open>
  An application whose engine is running with 40 of 60 seconds left and no pause cause
  set; and a minute of manual pause during which the user goes idle and comes back: 59
  firings of the manual countdown between the two signals of the idle detector.
\<close>

definition running_app :: MindfulBreakApp where
  "running_app =
     \<lparr>timer_manager =
        \<lparr>state = STATE_RUNNING, timer_source_id = True,
         remaining_seconds = 40, configured_interval_seconds = 60\<rparr>,
      paused_due_to_idle = False, manual_pause_timer_id = False,
      manual_pause_remaining_seconds = 0, tray_status = (TRAY_RUNNING, 40),
      engine_calls = []\<rparr>"

definition idle_during_pause :: "app_event list" where
  "idle_during_pause = UserIdle # replicate 59 ManualPauseTick @ [UserActive]"

section \<open>The countdown engine: lemmas\<close>

lemmas engine_defs =
  set_interval_def start_def pause_def resume_def stop_def postpone_def tick_def
  enter_break_state_def stop_internal_timer_def

lemma py_round_of_int: "py_round (of_int n) = n"
  by (simp add: py_round_def)

lemma py_round_numeral: "py_round (numeral k) = numeral k"
  using py_round_of_int [of "numeral k"] by simp

lemma exec_Nil: "exec t [] = t"
  by (simp add: exec_def)

lemma exec_Cons: "exec t (x # xs) = exec (fst (step t x)) xs"
  by (simp add: exec_def split: prod.splits)

lemma exec_append: "exec t (xs @ ys) = exec (exec t xs) ys"
  by (induction xs arbitrary: t) (simp_all add: exec_Nil exec_Cons)

lemma timer_inv_init: "timer_inv TimerManager_init"
  by (simp add: timer_inv_def TimerManager_init_def)

lemma timer_inv_step: "timer_inv t \<Longrightarrow> timer_inv (fst (step t x))"
  by (cases x; cases "state t") (auto simp: timer_inv_def engine_defs Let_def)

lemma timer_inv_exec: "timer_inv t \<Longrightarrow> timer_inv (exec t xs)"
  by (induction xs arbitrary: t) (simp_all add: exec_Nil exec_Cons timer_inv_step)

lemma configured_step:
  "1 \<le> configured_interval_seconds t \<Longrightarrow> 1 \<le> configured_interval_seconds (fst (step t x))"
  by (cases x) (auto simp: engine_defs Let_def)

lemma configured_exec:
  "1 \<le> configured_interval_seconds t \<Longrightarrow> 1 \<le> configured_interval_seconds (exec t xs)"
  by (induction xs arbitrary: t) (simp_all add: exec_Nil exec_Cons configured_step)

lemma configured_set_interval: "1 \<le> configured_interval_seconds (set_interval t m)"
  by (simp add: set_interval_def Let_def)

text \<open>
  Every state the engine reaches from its initial one satisfies the invariant, and once
  \<^verbatim>\<open>set_interval\<close> has been called the configured interval is at least one second.
\<close>

lemma reachable_inv: "timer_inv (exec TimerManager_init xs)"
  by (simp add: timer_inv_exec timer_inv_init)

lemma reachable_configured:
  "1 \<le> configured_interval_seconds (exec TimerManager_init (xs @ SetInterval m # ys))"
  by (simp add: exec_append exec_Cons configured_exec configured_set_interval)

lemma pause_resume_step:
  "timer_inv t \<Longrightarrow> x = Pause \<or> x = Resume \<Longrightarrow>
   remaining_seconds (fst (step t x)) = remaining_seconds t"
  by (cases "state t") (auto simp: timer_inv_def engine_defs Let_def)

lemma pause_resume_exec:
  "timer_inv t \<Longrightarrow> set xs \<subseteq> {Pause, Resume} \<Longrightarrow>
   remaining_seconds (exec t xs) = remaining_seconds t"
proof (induction xs arbitrary: t)
  case Nil
  then show ?case by (simp add: exec_Nil)
next
  case (Cons x xs)
  from Cons.prems have x: "x = Pause \<or> x = Resume" by auto
  have "timer_inv (fst (step t x))"
    using Cons.prems(1) by (rule timer_inv_step)
  moreover have "set xs \<subseteq> {Pause, Resume}"
    using Cons.prems(2) by simp
  ultimately have
    "remaining_seconds (exec (fst (step t x)) xs) = remaining_seconds (fst (step t x))"
    by (rule Cons.IH)
  with pause_resume_step [OF Cons.prems(1) x] show ?case
    by (simp add: exec_Cons)
qed

section \<open>The countdown engine: claims\<close>

text \<open>
  Claim C1 (scenario A). From any state of the engine, \<^verbatim>\<open>set_interval(0.1)\<close>
  configures 6 seconds; \<^verbatim>\<open>start()\<close> followed by six firings of the tick emits
  \<open>timer_started\<close>, the immediate \<open>timer_tick 6\<close>, then \<open>timer_tick\<close> 5, 4, 3, 2, 1 and
  at the sixth firing \<open>break_started\<close>, with no \<open>timer_tick 0\<close>. After \<open>k\<close> firings,
  \<open>k\<close> from 0 to 5, the engine is running with \<open>6 - k\<close> seconds left; after the sixth
  it is in the break state with 0 seconds left and no tick source.
\<close>

theorem scenario_A_break_after_six_ticks:
  "configured_interval_seconds (set_interval t (1 / 10)) = 6
   \<and> run (set_interval t (1 / 10)) (Start # replicate 6 Tick) =
       (\<lparr>state = STATE_BREAK_ACTIVE, timer_source_id = False,
         remaining_seconds = 0, configured_interval_seconds = 6\<rparr>,
        [timer_started, timer_tick 6, timer_tick 5, timer_tick 4, timer_tick 3,
         timer_tick 2, timer_tick 1, break_started])
   \<and> map (\<lambda>k. let r = exec (set_interval t (1 / 10)) (Start # replicate k Tick)
                in (state r, remaining_seconds r)) [0, 1, 2, 3, 4, 5, 6] =
       [(STATE_RUNNING, 6), (STATE_RUNNING, 5), (STATE_RUNNING, 4), (STATE_RUNNING, 3),
        (STATE_RUNNING, 2), (STATE_RUNNING, 1), (STATE_BREAK_ACTIVE, 0)]"
  by (cases t) (simp add: engine_defs exec_def py_round_numeral numeral_eq_Suc Let_def)

text \<open>
  Claim C2. Let \<open>s\<close> be any state reached from the initial one by a sequence of requests
  (public methods and tick firings) in which \<^verbatim>\<open>set_interval\<close> occurs, and \<open>s'\<close> the state
  after one more request \<open>x\<close>. Then: 0 seconds are left in \<open>s\<close> exactly when \<open>s\<close> is the
  break state; if \<open>s\<close> is paused, more than 0 seconds are left and \<^verbatim>\<open>resume()\<close> takes its
  ordinary branch; the seconds left in \<open>s'\<close> are one less than in \<open>s\<close> for a tick while
  running, unchanged for a tick in any other state and for \<^verbatim>\<open>pause\<close> and \<^verbatim>\<open>resume\<close>,
  and otherwise set to the configured interval, the postpone duration or (while stopped)
  the new interval; and if \<open>s'\<close> is stopped, the seconds left in \<open>s'\<close> are the configured
  interval.
\<close>

theorem remaining_seconds_invariant:
  fixes xs ys :: "operation list" and m :: rat and x :: operation
  defines "s \<equiv> exec TimerManager_init (xs @ SetInterval m # ys)"
  defines "s' \<equiv> fst (step s x)"
  shows "(remaining_seconds s = 0) = (state s = STATE_BREAK_ACTIVE)
    \<and> (state s = STATE_PAUSED \<longrightarrow>
         0 < remaining_seconds s
         \<and> resume s = (s\<lparr>state := STATE_RUNNING, timer_source_id := True\<rparr>,
                       [timer_resumed, timer_tick (remaining_seconds s)]))
    \<and> remaining_seconds s' =
         (case x of
            Tick \<Rightarrow>
              if state s = STATE_RUNNING then remaining_seconds s - 1 else remaining_seconds s
          | Pause \<Rightarrow> remaining_seconds s
          | Resume \<Rightarrow> remaining_seconds s
          | Start \<Rightarrow> configured_interval_seconds s
          | Stop \<Rightarrow> configured_interval_seconds s
          | Postpone minutes \<Rightarrow> max 1 (py_round (minutes * 60))
          | SetInterval minutes \<Rightarrow>
              if state s = STATE_STOPPED then max 1 (py_round (minutes * 60))
              else remaining_seconds s)
    \<and> (state s' = STATE_STOPPED \<longrightarrow>
         remaining_seconds s' = configured_interval_seconds s')"
proof -
  have inv: "timer_inv s"
    unfolding s_def by (rule reachable_inv)
  have cfg: "1 \<le> configured_interval_seconds s"
    unfolding s_def by (rule reachable_configured)
  have zero: "(remaining_seconds s = 0) = (state s = STATE_BREAK_ACTIVE)"
    using inv cfg by (cases "state s") (auto simp: timer_inv_def)
  have paused: "state s = STATE_PAUSED \<longrightarrow>
         0 < remaining_seconds s
         \<and> resume s = (s\<lparr>state := STATE_RUNNING, timer_source_id := True\<rparr>,
                       [timer_resumed, timer_tick (remaining_seconds s)])"
    using inv by (auto simp: timer_inv_def resume_def Let_def)
  have change: "remaining_seconds s' =
         (case x of
            Tick \<Rightarrow>
              if state s = STATE_RUNNING then remaining_seconds s - 1 else remaining_seconds s
          | Pause \<Rightarrow> remaining_seconds s
          | Resume \<Rightarrow> remaining_seconds s
          | Start \<Rightarrow> configured_interval_seconds s
          | Stop \<Rightarrow> configured_interval_seconds s
          | Postpone minutes \<Rightarrow> max 1 (py_round (minutes * 60))
          | SetInterval minutes \<Rightarrow>
              if state s = STATE_STOPPED then max 1 (py_round (minutes * 60))
              else remaining_seconds s)"
    unfolding s'_def using inv cfg
    by (cases x; cases "state s") (auto simp: timer_inv_def engine_defs Let_def max_def)
  have "timer_inv s'"
    unfolding s'_def using inv by (rule timer_inv_step)
  then have stopped: "state s' = STATE_STOPPED \<longrightarrow>
         remaining_seconds s' = configured_interval_seconds s'"
    by (auto simp: timer_inv_def)
  from zero paused change stopped show ?thesis by blast
qed

theorem remaining_seconds_invariant_witness:
  "state (exec TimerManager_init ([] @ SetInterval (1 / 10) # [Start, Tick, Pause]))
     = STATE_PAUSED
   \<and> remaining_seconds
       (exec TimerManager_init ([] @ SetInterval (1 / 10) # [Start, Tick, Pause])) = 5
   \<and> resume (exec TimerManager_init ([] @ SetInterval (1 / 10) # [Start, Tick, Pause])) =
       (\<lparr>state = STATE_RUNNING, timer_source_id = True,
         remaining_seconds = 5, configured_interval_seconds = 6\<rparr>,
        [timer_resumed, timer_tick 5])
   \<and> state (fst (step
       (exec TimerManager_init ([] @ SetInterval (1 / 10) # [Start, Tick, Pause])) Stop))
     = STATE_STOPPED
   \<and> remaining_seconds (fst (step
       (exec TimerManager_init ([] @ SetInterval (1 / 10) # [Start, Tick, Pause])) Stop))
     = 6"
  using remaining_seconds_invariant
    [where xs = "[]" and m = "1 / 10" and ys = "[Start, Tick, Pause]" and x = Stop]
  by (simp add: engine_defs exec_def TimerManager_init_def py_round_numeral Let_def)

text \<open>
  Claim C4, as stated, fails on its last clause: \<^verbatim>\<open>stop()\<close> is neither the tick nor
  \<^verbatim>\<open>postpone\<close> nor \<^verbatim>\<open>start\<close>, and it changes the seconds left. With a 6-second
  interval, one tick after \<^verbatim>\<open>start()\<close> 5 seconds are left, and \<^verbatim>\<open>stop()\<close> makes them 6.
\<close>

theorem stop_modifies_remaining_seconds:
  "remaining_seconds (exec TimerManager_init [SetInterval (1 / 10), Start, Tick]) = 5
   \<and> remaining_seconds
       (fst (step (exec TimerManager_init [SetInterval (1 / 10), Start, Tick]) Stop)) = 6"
  by (simp add: engine_defs exec_def TimerManager_init_def py_round_numeral Let_def)

text \<open>
  Claim C4, amended. Let \<open>t\<close> be any state reached from the initial one. After any
  sequence made only of \<^verbatim>\<open>pause()\<close> and \<^verbatim>\<open>resume()\<close> calls the seconds left are those of
  \<open>t\<close>; and a single request that changes the seconds left is the tick, \<^verbatim>\<open>start\<close>,
  \<^verbatim>\<open>stop\<close>, \<^verbatim>\<open>postpone\<close>, or \<^verbatim>\<open>set_interval\<close> while stopped.
\<close>

theorem pause_resume_frame:
  fixes ops prs :: "operation list" and x :: operation
  defines "t \<equiv> exec TimerManager_init ops"
  shows "(set prs \<subseteq> {Pause, Resume} \<longrightarrow>
            remaining_seconds (exec t prs) = remaining_seconds t)
    \<and> (remaining_seconds (fst (step t x)) \<noteq> remaining_seconds t \<longrightarrow>
         x = Tick \<or> x = Start \<or> x = Stop \<or> (\<exists>minutes. x = Postpone minutes)
         \<or> (\<exists>minutes. x = SetInterval minutes \<and> state t = STATE_STOPPED))"
proof -
  have inv: "timer_inv t"
    unfolding t_def by (rule reachable_inv)
  have seq: "set prs \<subseteq> {Pause, Resume} \<longrightarrow>
            remaining_seconds (exec t prs) = remaining_seconds t"
    using pause_resume_exec [OF inv] by blast
  have one: "remaining_seconds (fst (step t x)) \<noteq> remaining_seconds t \<longrightarrow>
         x = Tick \<or> x = Start \<or> x = Stop \<or> (\<exists>minutes. x = Postpone minutes)
         \<or> (\<exists>minutes. x = SetInterval minutes \<and> state t = STATE_STOPPED)"
  proof (cases x)
    case (SetInterval minutes)
    then show ?thesis by (auto simp: set_interval_def Let_def)
  next
    case Pause
    then show ?thesis using pause_resume_step [OF inv, of x] by simp
  next
    case Resume
    then show ?thesis using pause_resume_step [OF inv, of x] by simp
  qed simp_all
  from seq one show ?thesis by blast
qed

theorem pause_resume_frame_witness:
  "set [Pause, Resume, Resume, Pause] \<subseteq> {Pause, Resume}
   \<and> remaining_seconds
       (exec (exec TimerManager_init [SetInterval (1 / 10), Start, Tick])
          [Pause, Resume, Resume, Pause])
     = remaining_seconds (exec TimerManager_init [SetInterval (1 / 10), Start, Tick])
   \<and> remaining_seconds
       (fst (step (exec TimerManager_init [SetInterval (1 / 10), Start, Tick]) Tick))
     \<noteq> remaining_seconds (exec TimerManager_init [SetInterval (1 / 10), Start, Tick])"
  using pause_resume_frame
    [where ops = "[SetInterval (1 / 10), Start, Tick]"
       and prs = "[Pause, Resume, Resume, Pause]" and x = Tick]
  by (simp add: engine_defs exec_def TimerManager_init_def py_round_numeral Let_def)

text \<open>
  Claim C5, as stated, fails when the engine is stopped already: neither of the two
  \<^verbatim>\<open>stop()\<close> calls emits \<open>timer_stopped\<close>, so it is emitted zero times, not once. The
  state below is the one right after construction and \<^verbatim>\<open>set_interval(1)\<close>.
\<close>

theorem stop_twice_when_stopped_emits_nothing:
  "state (set_interval TimerManager_init 1) = STATE_STOPPED
   \<and> count_list (snd (run (set_interval TimerManager_init 1) [Stop, Stop])) timer_stopped = 0"
  by (simp add: engine_defs TimerManager_init_def Let_def)

text \<open>
  Claim C5, amended. From any state, two \<^verbatim>\<open>stop()\<close> calls in a row emit
  \<open>timer_stopped\<close> exactly once when the engine was not stopped before the first call,
  and not at all when it was; in both cases the second call emits nothing, and after
  each call the engine is stopped with the configured interval as seconds left.
\<close>

theorem stop_twice_emission:
  "snd (run t [Stop, Stop]) = (if state t = STATE_STOPPED then [] else [timer_stopped])
   \<and> snd (stop (fst (stop t))) = []
   \<and> state (fst (stop t)) = STATE_STOPPED
   \<and> remaining_seconds (fst (stop t)) = configured_interval_seconds t
   \<and> state (fst (stop (fst (stop t)))) = STATE_STOPPED
   \<and> remaining_seconds (fst (stop (fst (stop t)))) = configured_interval_seconds t
   \<and> configured_interval_seconds (fst (stop (fst (stop t)))) = configured_interval_seconds t"
  by (simp add: stop_def stop_internal_timer_def Let_def)

text \<open>
  Claim C8 (scenario B). With a 60-second interval, two ticks after \<^verbatim>\<open>start()\<close> the
  engine is running with 58 seconds left; \<^verbatim>\<open>pause()\<close> keeps the 58 seconds;
  \<^verbatim>\<open>resume()\<close> emits \<open>timer_resumed\<close> then \<open>timer_tick 58\<close>; and the first tick after it
  leaves 57 seconds and emits \<open>timer_tick 57\<close>.
\<close>

theorem scenario_B_resume_continues:
  "run (set_interval t 1) [Start, Tick, Tick] =
     (\<lparr>state = STATE_RUNNING, timer_source_id = True,
       remaining_seconds = 58, configured_interval_seconds = 60\<rparr>,
      [timer_started, timer_tick 60, timer_tick 59, timer_tick 58])
   \<and> pause (exec (set_interval t 1) [Start, Tick, Tick]) =
     (\<lparr>state = STATE_PAUSED, timer_source_id = False,
       remaining_seconds = 58, configured_interval_seconds = 60\<rparr>,
      [timer_paused])
   \<and> resume (exec (set_interval t 1) [Start, Tick, Tick, Pause]) =
     (\<lparr>state = STATE_RUNNING, timer_source_id = True,
       remaining_seconds = 58, configured_interval_seconds = 60\<rparr>,
      [timer_resumed, timer_tick 58])
   \<and> tick (exec (set_interval t 1) [Start, Tick, Tick, Pause, Resume]) =
     (True,
      \<lparr>state = STATE_RUNNING, timer_source_id = True,
       remaining_seconds = 57, configured_interval_seconds = 60\<rparr>,
      [timer_tick 57])"
  by (cases t) (simp add: engine_defs exec_def py_round_numeral Let_def)

text \<open>
  Claim C9. \<^verbatim>\<open>pause()\<close> in a state other than running, and \<^verbatim>\<open>resume()\<close> in a state
  other than paused, return the engine as it was (state, seconds left, configured
  interval and tick source) and emit nothing. Neither method has a path that raises: both
  are total functions here with no error result.
\<close>

theorem invalid_pause_resume_noop:
  "(state t \<noteq> STATE_RUNNING \<longrightarrow> pause t = (t, []))
   \<and> (state t \<noteq> STATE_PAUSED \<longrightarrow> resume t = (t, []))"
  by (simp add: pause_def resume_def)

theorem invalid_pause_resume_noop_witness:
  "state TimerManager_init \<noteq> STATE_RUNNING
   \<and> pause TimerManager_init = (TimerManager_init, [])
   \<and> state TimerManager_init \<noteq> STATE_PAUSED
   \<and> resume TimerManager_init = (TimerManager_init, [])"
  using invalid_pause_resume_noop [of TimerManager_init]
  by (simp add: TimerManager_init_def)

section \<open>The idle detector: lemmas and claims\<close>

lemma check_idle_cases:
  assumes "check_idle m q = (keep, m', out)"
  shows "out = (if \<not> is_idle m \<and> is_idle m' then [user_idle]
                else if is_idle m \<and> \<not> is_idle m' then [user_active] else [])"
    and "is_idle m' \<noteq> is_idle m \<longrightarrow>
           (\<exists>ms. q = QueryIdle ms \<and> is_idle m' = (idle_threshold_ms m \<le> ms))"
    and "q = QueryStatus0 \<or> q = QueryRaised \<longrightarrow> m' = m \<and> out = []"
    and "idle_threshold_ms m' = idle_threshold_ms m"
    and "operational m \<longrightarrow> keep \<and> operational m'"
  using assms
  by (auto simp: check_idle_def operational_def Let_def split: if_splits query_result.splits)

lemma poll_log_ok:
  "idle_threshold_ms m = thr \<Longrightarrow> (opf \<longrightarrow> operational m) \<Longrightarrow>
   \<forall>e \<in> set (poll_log m qs). poll_entry_ok thr opf e"
proof (induction qs arbitrary: m)
  case Nil
  then show ?case by simp
next
  case (Cons q qs)
  obtain keep m' out where c: "check_idle m q = (keep, m', out)"
    by (cases "check_idle m q")
  note e = check_idle_cases [OF c]
  have thr: "idle_threshold_ms m' = thr"
    using e(4) Cons.prems(1) by simp
  have op: "opf \<longrightarrow> keep \<and> operational m'"
    using e(5) Cons.prems(2) by simp
  have hd: "poll_entry_ok thr opf (is_idle m, q, is_idle m', out, keep)"
    unfolding poll_entry_ok_def using e(1,2,3) op Cons.prems(1) by auto
  have tl: "\<forall>e \<in> set (poll_log m' qs). poll_entry_ok thr opf e"
    using Cons.IH [of m'] thr op by blast
  show ?case using hd tl by (simp add: c)
qed

text \<open>
  Claim C7. In every sequence of polls, from any monitor, each poll emits \<open>user_idle\<close>
  exactly when it turns the idle flag from false to true, \<open>user_active\<close> exactly when it
  turns it from true to false, and nothing when it leaves the flag as it was; the flag
  changes only on a successful query, to the comparison of the measured idle time with
  the threshold; a query that fails (status 0 or an exception) keeps the flag and emits
  nothing; and when the monitor was polling at the start (initialised, handles held,
  periodic source set), every poll returns \<open>True\<close>, so the periodic source stays.
\<close>

theorem idle_signals_edge_triggered:
  "\<forall>(before, q, after, out, keep) \<in> set (poll_log m qs).
      out = (if \<not> before \<and> after then [user_idle]
             else if before \<and> \<not> after then [user_active] else [])
    \<and> (after \<noteq> before \<longrightarrow>
         (\<exists>ms. q = QueryIdle ms \<and> after = (idle_threshold_ms m \<le> ms)))
    \<and> (q = QueryStatus0 \<or> q = QueryRaised \<longrightarrow> after = before \<and> out = [])
    \<and> (operational m \<longrightarrow> keep)"
  using poll_log_ok [of m "idle_threshold_ms m" "operational m" qs]
  unfolding poll_entry_ok_def by simp

theorem idle_signals_edge_triggered_witness:
  "operational test_monitor
   \<and> idle_threshold_ms test_monitor = 5000
   \<and> poll_log test_monitor
        [QueryIdle 1000, QueryIdle 6000, QueryStatus0, QueryIdle 7000, QueryRaised,
         QueryIdle 10] =
       [(False, QueryIdle 1000, False, [], True),
        (False, QueryIdle 6000, True, [user_idle], True),
        (True, QueryStatus0, True, [], True),
        (True, QueryIdle 7000, True, [], True),
        (True, QueryRaised, True, [], True),
        (True, QueryIdle 10, False, [user_active], True)]"
  using idle_signals_edge_triggered
    [of test_monitor
        "[QueryIdle 1000, QueryIdle 6000, QueryStatus0, QueryIdle 7000, QueryRaised,
          QueryIdle 10]"]
  by (simp add: test_monitor_def operational_def monitor_start_def IdleMonitor_init_def
        check_idle_def Let_def)

lemma stopped_monitor_step:
  assumes "\<not> initialized_successfully m" "\<not> monitor_source_id m"
  shows "monitor_step m x = (m, [], [])"
  using assms by (cases x) (simp_all add: monitor_start_def monitor_stop_def check_idle_def)

lemma stopped_monitor_run:
  assumes "\<not> initialized_successfully m" "\<not> monitor_source_id m"
  shows "monitor_run m xs = (m, [], [])"
  by (induction xs) (simp_all add: stopped_monitor_step [OF assms])

text \<open>
  Claim C10. After \<^verbatim>\<open>stop()\<close> on an initialised monitor, the monitor is no longer
  initialised and holds neither its periodic source nor its X handles; \<^verbatim>\<open>start\<close> with
  any poll interval returns it unchanged and asks GLib for nothing; and any further
  sequence of \<^verbatim>\<open>start\<close>, \<^verbatim>\<open>stop\<close> and polls leaves it unchanged, schedules nothing and
  emits no signal. A newly constructed monitor whose X calls succeed does start: it takes
  the periodic source and asks for the immediate and the periodic check.
\<close>

theorem stopped_monitor_never_restarts:
  assumes "initialized_successfully m"
  shows "\<not> initialized_successfully (monitor_stop m)
    \<and> \<not> monitor_source_id (monitor_stop m)
    \<and> \<not> display (monitor_stop m) \<and> \<not> saver_info (monitor_stop m)
    \<and> monitor_start (monitor_stop m) p = (monitor_stop m, [])
    \<and> monitor_run (monitor_stop m) xs = (monitor_stop m, [], [])
    \<and> monitor_start
         (IdleMonitor_init thr
            \<lparr>XOpenDisplay = True, XDefaultRootWindow = True, XScreenSaverAllocInfo = True\<rparr>) p =
       ((IdleMonitor_init thr
            \<lparr>XOpenDisplay = True, XDefaultRootWindow = True, XScreenSaverAllocInfo = True\<rparr>)
          \<lparr>monitor_source_id := True\<rparr>,
        [idle_add, timeout_add_seconds (max 1 p)])"
proof -
  have a: "\<not> initialized_successfully (monitor_stop m)" "\<not> monitor_source_id (monitor_stop m)"
    "\<not> display (monitor_stop m)" "\<not> saver_info (monitor_stop m)"
    using assms by (simp_all add: monitor_stop_def Let_def)
  have fresh: "monitor_start
         (IdleMonitor_init thr
            \<lparr>XOpenDisplay = True, XDefaultRootWindow = True, XScreenSaverAllocInfo = True\<rparr>) p =
       ((IdleMonitor_init thr
            \<lparr>XOpenDisplay = True, XDefaultRootWindow = True, XScreenSaverAllocInfo = True\<rparr>)
          \<lparr>monitor_source_id := True\<rparr>,
        [idle_add, timeout_add_seconds (max 1 p)])"
    by (simp add: monitor_start_def IdleMonitor_init_def Let_def max_def)
  show ?thesis
    using a stopped_monitor_run [OF a(1,2)] fresh by (simp add: monitor_start_def)
qed

theorem stopped_monitor_never_restarts_witness:
  "initialized_successfully test_monitor
   \<and> monitor_source_id test_monitor
   \<and> \<not> initialized_successfully (monitor_stop test_monitor)
   \<and> monitor_run (monitor_stop test_monitor)
        [MonitorStart 30, MonitorPoll (QueryIdle 999999), MonitorStop, MonitorStart 1] =
       (monitor_stop test_monitor, [], [])"
proof -
  have i: "initialized_successfully test_monitor"
    by (simp add: test_monitor_def monitor_start_def IdleMonitor_init_def Let_def)
  have s: "monitor_source_id test_monitor"
    by (simp add: test_monitor_def monitor_start_def IdleMonitor_init_def Let_def)
  note r = stopped_monitor_never_restarts
    [OF i, where xs = "[MonitorStart 30, MonitorPoll (QueryIdle 999999), MonitorStop, MonitorStart 1]"]
  from r have "\<not> initialized_successfully (monitor_stop test_monitor)"
    and "monitor_run (monitor_stop test_monitor)
        [MonitorStart 30, MonitorPoll (QueryIdle 999999), MonitorStop, MonitorStart 1] =
       (monitor_stop test_monitor, [], [])"
    by blast+
  with i s show ?thesis by blast
qed

section \<open>Pause arbitration: lemmas and claims\<close>

lemmas handler_defs =
  on_timer_tick_def on_break_started_def on_timer_paused_def cancel_manual_pause_def
  on_timer_resumed_def on_timer_stopped_def on_timer_started_def emit_all_def
  call_engine_def

lemma app_run_Nil: "app_run a [] = a"
  by (simp add: app_run_def)

lemma app_run_Cons: "app_run a (e # es) = app_run (app_step a e) es"
  by (simp add: app_run_def)

lemma count_list_replicate_self: "count_list (replicate n x) x = n"
  by (induction n) simp_all

text \<open>
  While a manual pause is in force and more than one second of it is left, no event
  reaches the engine: the idle signals return early, the engine has no tick source, and
  the manual countdown only counts.
\<close>

lemma manual_pause_step:
  assumes "manual_pause_holds a"
    and "e = ManualPauseTick \<longrightarrow> 1 < manual_pause_remaining_seconds a"
  shows "manual_pause_holds (app_step a e)"
    and "timer_manager (app_step a e) = timer_manager a"
    and "engine_calls (app_step a e) = engine_calls a"
    and "manual_pause_remaining_seconds (app_step a e) =
           manual_pause_remaining_seconds a - (if e = ManualPauseTick then 1 else 0)"
  using assms
  by (cases e; simp add: manual_pause_holds_def on_user_idle_def on_user_active_def
        manual_pause_tick_def Let_def)+

lemma manual_pause_run:
  assumes "manual_pause_holds a"
    and "int (count_list es ManualPauseTick) < manual_pause_remaining_seconds a"
  shows "manual_pause_holds (app_run a es)
       \<and> timer_manager (app_run a es) = timer_manager a
       \<and> engine_calls (app_run a es) = engine_calls a
       \<and> manual_pause_remaining_seconds (app_run a es) =
           manual_pause_remaining_seconds a - int (count_list es ManualPauseTick)"
  using assms
proof (induction es arbitrary: a)
  case Nil
  then show ?case by (simp add: app_run_Nil)
next
  case (Cons e es)
  have e: "e = ManualPauseTick \<longrightarrow> 1 < manual_pause_remaining_seconds a"
    using Cons.prems(2) by auto
  note s = manual_pause_step [OF Cons.prems(1) e]
  have "int (count_list es ManualPauseTick) < manual_pause_remaining_seconds (app_step a e)"
    using Cons.prems(2) s(4) by (auto split: if_splits)
  from Cons.IH [OF s(1) this] show ?case
    using s(2,3,4) by (auto simp: app_run_Cons)
qed

lemma manual_pause_begin:
  fixes minutes :: int
  assumes "state (timer_manager a) = STATE_RUNNING" "\<not> manual_pause_timer_id a"
  defines "a1 \<equiv> on_pause_dialog_response a (RESPONSE_OK minutes)"
  shows "manual_pause_holds a1"
    and "timer_manager a1 =
           (timer_manager a)\<lparr>state := STATE_PAUSED, timer_source_id := False\<rparr>"
    and "engine_calls a1 = engine_calls a @ [Pause]"
    and "manual_pause_remaining_seconds a1 = get_duration_seconds minutes"
  using assms(1,2) unfolding a1_def
  by (simp_all add: on_pause_dialog_response_def get_duration_seconds_def Let_def
        manual_pause_holds_def handler_defs pause_def stop_internal_timer_def)

lemma manual_pause_end:
  assumes "manual_pause_holds a" "manual_pause_remaining_seconds a = 1"
    "0 < remaining_seconds (timer_manager a)"
  shows "timer_manager (app_step a ManualPauseTick) =
           (timer_manager a)\<lparr>state := STATE_RUNNING, timer_source_id := True\<rparr>"
    and "engine_calls (app_step a ManualPauseTick) = engine_calls a @ [Resume]"
    and "\<not> manual_pause_timer_id (app_step a ManualPauseTick)"
    and "\<not> paused_due_to_idle (app_step a ManualPauseTick)"
  using assms
  by (simp_all add: manual_pause_holds_def manual_pause_tick_def Let_def handler_defs
        resume_def)

text \<open>
  Claim C3. The engine is running (with a positive number of seconds left, as the
  engine's invariant has it) and no manual pause is active, so that the duration dialog
  opens; the dialog is answered with a number of minutes, which
  \<^verbatim>\<open>get_duration_seconds\<close> turns into \<open>D\<close> seconds. Then follows any sequence of idle
  signals, active signals and timer firings in which the manual countdown fires fewer
  than \<open>D\<close> times. At its end the application has made exactly one call to the engine,
  \<^verbatim>\<open>pause()\<close>; the engine is paused with the seconds left it had when the pause was
  requested; and the manual pause is still active with \<open>D\<close> minus the number of firings
  left. If the countdown has fired \<open>D - 1\<close> times, its next firing makes the second call,
  \<^verbatim>\<open>resume()\<close>, after which the engine is running with the same seconds left and
  neither pause cause is set.
\<close>

theorem manual_pause_overrides_idle:
  fixes minutes :: int
  assumes "state (timer_manager a) = STATE_RUNNING"
    and "0 < remaining_seconds (timer_manager a)"
    and "on_pause_for_requested a"
    and "int (count_list es ManualPauseTick) < get_duration_seconds minutes"
  defines "a2 \<equiv> app_run (on_pause_dialog_response a (RESPONSE_OK minutes)) es"
  shows "engine_calls a2 = engine_calls a @ [Pause]
       \<and> timer_manager a2 =
           (timer_manager a)\<lparr>state := STATE_PAUSED, timer_source_id := False\<rparr>
       \<and> manual_pause_timer_id a2
       \<and> manual_pause_remaining_seconds a2 =
           get_duration_seconds minutes - int (count_list es ManualPauseTick)
       \<and> (int (count_list es ManualPauseTick) + 1 = get_duration_seconds minutes \<longrightarrow>
            engine_calls (app_step a2 ManualPauseTick) = engine_calls a @ [Pause, Resume]
          \<and> timer_manager (app_step a2 ManualPauseTick) =
              (timer_manager a)\<lparr>state := STATE_RUNNING, timer_source_id := True\<rparr>
          \<and> \<not> manual_pause_timer_id (app_step a2 ManualPauseTick)
          \<and> \<not> paused_due_to_idle (app_step a2 ManualPauseTick))"
proof -
  let ?a1 = "on_pause_dialog_response a (RESPONSE_OK minutes)"
  have nomanual: "\<not> manual_pause_timer_id a"
    using assms(3) by (simp add: on_pause_for_requested_def split: if_splits)
  note b = manual_pause_begin [OF assms(1) nomanual, of minutes]
  have "int (count_list es ManualPauseTick) < manual_pause_remaining_seconds ?a1"
    using assms(4) b(4) by simp
  note r = manual_pause_run [OF b(1) this, folded a2_def]
  have main: "engine_calls a2 = engine_calls a @ [Pause]"
    "timer_manager a2 =
       (timer_manager a)\<lparr>state := STATE_PAUSED, timer_source_id := False\<rparr>"
    "manual_pause_timer_id a2"
    "manual_pause_remaining_seconds a2 =
       get_duration_seconds minutes - int (count_list es ManualPauseTick)"
    using r b by (simp_all add: manual_pause_holds_def)
  have last: "engine_calls (app_step a2 ManualPauseTick) = engine_calls a @ [Pause, Resume]
          \<and> timer_manager (app_step a2 ManualPauseTick) =
              (timer_manager a)\<lparr>state := STATE_RUNNING, timer_source_id := True\<rparr>
          \<and> \<not> manual_pause_timer_id (app_step a2 ManualPauseTick)
          \<and> \<not> paused_due_to_idle (app_step a2 ManualPauseTick)"
    if "int (count_list es ManualPauseTick) + 1 = get_duration_seconds minutes"
  proof -
    have h: "manual_pause_holds a2"
      using r by simp
    have one: "manual_pause_remaining_seconds a2 = 1"
      using main(4) that by simp
    have pos: "0 < remaining_seconds (timer_manager a2)"
      using main(2) assms(2) by simp
    note e = manual_pause_end [OF h one pos]
    show ?thesis using e main(1,2) by simp
  qed
  show ?thesis using main last by blast
qed

theorem manual_pause_overrides_idle_witness:
  "state (timer_manager running_app) = STATE_RUNNING
   \<and> remaining_seconds (timer_manager running_app) = 40
   \<and> on_pause_for_requested running_app
   \<and> int (count_list idle_during_pause ManualPauseTick) + 1 = get_duration_seconds 1
   \<and> engine_calls
        (app_run (on_pause_dialog_response running_app (RESPONSE_OK 1)) idle_during_pause)
       = [Pause]
   \<and> engine_calls
        (app_step
           (app_run (on_pause_dialog_response running_app (RESPONSE_OK 1)) idle_during_pause)
           ManualPauseTick)
       = [Pause, Resume]
   \<and> timer_manager
        (app_step
           (app_run (on_pause_dialog_response running_app (RESPONSE_OK 1)) idle_during_pause)
           ManualPauseTick)
       = \<lparr>state = STATE_RUNNING, timer_source_id = True,
          remaining_seconds = 40, configured_interval_seconds = 60\<rparr>"
proof -
  have h1: "state (timer_manager running_app) = STATE_RUNNING"
    by (simp add: running_app_def)
  have h2: "0 < remaining_seconds (timer_manager running_app)"
    by (simp add: running_app_def)
  have h3: "on_pause_for_requested running_app"
    by (simp add: running_app_def on_pause_for_requested_def)
  have c: "int (count_list idle_during_pause ManualPauseTick) = 59"
    by (simp add: idle_during_pause_def count_list_replicate_self)
  have d: "get_duration_seconds 1 = 60"
    by (simp add: get_duration_seconds_def)
  have h4: "int (count_list idle_during_pause ManualPauseTick) < get_duration_seconds 1"
    using c d by simp
  note t = manual_pause_overrides_idle [OF h1 h2 h3 h4]
  have e: "engine_calls running_app = []"
    "timer_manager running_app =
       \<lparr>state = STATE_RUNNING, timer_source_id = True,
        remaining_seconds = 40, configured_interval_seconds = 60\<rparr>"
    by (simp_all add: running_app_def)
  show ?thesis using t h1 h3 c d e by (simp del: app_step.simps)
qed

text \<open>
  Claim C6 (scenario E). From any state of the engine, \<^verbatim>\<open>postpone(m)\<close> leaves it
  running with \<open>round(m * 60)\<close> seconds, at least 1, and a new tick source, and emits
  \<open>timer_started\<close> then \<open>timer_tick\<close> with those seconds; for 5 minutes that is 300
  seconds. When the application makes the call, whatever its pause causes were, no manual
  pause is active and the idle-pause flag is clear afterwards; so it is for the
  overlay's postpone of 5 minutes, which leaves the engine running with 300 seconds.
\<close>

theorem postpone_restarts_and_clears_pause_causes:
  "postpone t m =
     (t\<lparr>state := STATE_RUNNING, remaining_seconds := max 1 (py_round (m * 60)),
        timer_source_id := True\<rparr>,
      [timer_started, timer_tick (max 1 (py_round (m * 60)))])
   \<and> state (timer_manager (call_engine a (Postpone m))) = STATE_RUNNING
   \<and> remaining_seconds (timer_manager (call_engine a (Postpone m))) =
       max 1 (py_round (m * 60))
   \<and> \<not> manual_pause_timer_id (call_engine a (Postpone m))
   \<and> \<not> paused_due_to_idle (call_engine a (Postpone m))
   \<and> remaining_seconds (fst (postpone t 5)) = 300
   \<and> snd (postpone t 5) = [timer_started, timer_tick 300]
   \<and> state (timer_manager (on_overlay_postponed a 5)) = STATE_RUNNING
   \<and> remaining_seconds (timer_manager (on_overlay_postponed a 5)) = 300
   \<and> \<not> manual_pause_timer_id (on_overlay_postponed a 5)
   \<and> \<not> paused_due_to_idle (on_overlay_postponed a 5)"
  by (simp add: postpone_def stop_internal_timer_def Let_def max_def handler_defs
        on_overlay_postponed_def py_round_def)

end
